theory Spec2Isabelle
  imports Complex_Main
begin

section \<open>Python values, exceptions and outcomes\<close>

text \<open>
  The module \<^verbatim>\<open>metrics.py\<close> holds a module-level configuration block, the loss
  \<^verbatim>\<open>MarginRankingLoss\<close> and the two metrics \<^verbatim>\<open>ValidMetric\<close> and
  \<^verbatim>\<open>MatchRougeMetric\<close>. Tensor entries and Python floats are modelled as real numbers,
  Python ints as \<open>int\<close> (or \<open>nat\<close> for a counter that starts at 0 and is only
  incremented). The exceptions that the code can raise are values.
\<close>

datatype error = NameError | KeyError | IndexError | ZeroDivisionError | TorchError

text \<open>
  A method call either returns a value or raises; in both cases the object is left in
  some state, so a method is a function from the state to an outcome and the state after.
\<close>

datatype 'a outcome = Returns 'a | Raises error

datatype pyval = PyInt int | PyFloat real

fun pyval_num :: "pyval \<Rightarrow> real" where
  "pyval_num (PyInt i) = real_of_int i"
| "pyval_num (PyFloat x) = x"

text \<open>Python list indexing \<^verbatim>\<open>xs[i]\<close>: a negative index counts from the end.\<close>

definition py_get :: "'a list \<Rightarrow> int \<Rightarrow> 'a option" where
  "py_get xs i =
     (if 0 \<le> i \<and> i < int (length xs) then Some (xs ! nat i)
      else if - int (length xs) \<le> i \<and> i < 0 then Some (xs ! nat (int (length xs) + i))
      else None)"

text \<open>\<^verbatim>\<open>[xs[j] for j in js]\<close> built by appending in a loop; the first bad index raises.\<close>

fun py_gets :: "'a list \<Rightarrow> int list \<Rightarrow> 'a list option" where
  "py_gets xs [] = Some []"
| "py_gets xs (j # js) =
     (case py_get xs j of
        None \<Rightarrow> None
      | Some x \<Rightarrow> (case py_gets xs js of None \<Rightarrow> None | Some ys \<Rightarrow> Some (x # ys)))"

text \<open>\<^verbatim>\<open>' '.join(ss)\<close>\<close>

fun join_space :: "string list \<Rightarrow> string" where
  "join_space [] = []"
| "join_space [s] = s"
| "join_space (s # t # ts) = s @ '' '' @ join_space (t # ts)"

text \<open>
  \<^verbatim>\<open>torch.max(row, dim=0).indices\<close> on a non-empty row: the position of the first
  maximal entry.
\<close>

fun argmax :: "real list \<Rightarrow> nat" where
  "argmax [] = 0"
| "argmax [x] = 0"
| "argmax (x # y # ys) =
     (let k = argmax (y # ys) in if x < (y # ys) ! k then Suc k else 0)"


section \<open>Module-level configuration (lines 1 to 26)\<close>

text \<open>
  The names that the import statements of lines 1 to 19 bind in the module namespace, in
  order. \<^verbatim>\<open>from os.path import join\<close> binds \<^verbatim>\<open>join\<close> only.
\<close>

definition module_names :: "string list" where
  "module_names =
     [''np'', ''json'', ''join'', ''sys'', ''torch'', ''logging'', ''tempfile'', ''sp'',
      ''timedelta'', ''time'', ''combinations'', ''Rouge155'', ''log'', ''Rouge'',
      ''LossBase'', ''MetricBase'']"

datatype startup =
    Loaded string
  | SysExit nat string
  | Uncaught error

text \<open>
  Lines 22 to 26. Evaluating \<^verbatim>\<open>os.environ["ROUGE_PATH"]\<close> first looks the name
  \<^verbatim>\<open>os\<close> up; an unbound name raises NameError, which the handler
  \<^verbatim>\<open>except KeyError\<close> does not catch. \<open>SysExit status printed\<close> is the exit through
  \<^verbatim>\<open>sys.exit\<close> after the message was printed.
\<close>

definition load_module :: "(string \<rightharpoonup> string) \<Rightarrow> startup" where
  "load_module environ =
     (if ''os'' \<notin> set module_names then Uncaught NameError
      else case environ ''ROUGE_PATH'' of
             None \<Rightarrow> SysExit 1 ''Please set the environment variable ROUGE_PATH''
           | Some p \<Rightarrow> Loaded p)"


section \<open>ValidMetric\<close>

record example =
  ex_text :: "string list"
  summary :: "string list"
  indices :: "int list list"

text \<open>
  One line of \<^verbatim>\<open>train_info.txt\<close>: the five values that the format string prints.
\<close>

type_synonym info_line = "real \<times> real \<times> real \<times> int \<times> real"

record valid_metric =
  save_path :: string
  data :: "example list"
  top1_correct :: int
  top6_correct :: int
  top10_correct :: int
  ROUGE :: real
  Error :: int
  cur_idx :: nat
  train_info :: "info_line list"

definition ValidMetric_init :: "string \<Rightarrow> example list \<Rightarrow> valid_metric" where
  "ValidMetric_init path d =
     \<lparr>save_path = path, data = d, top1_correct = 0, top6_correct = 0, top10_correct = 0,
      ROUGE = 0, Error = 0, cur_idx = 0, train_info = []\<rparr>"

text \<open>
  \<^verbatim>\<open>fast_rouge\<close>. The scorer of the \<^verbatim>\<open>rouge\<close> package is not part of the module:
  \<open>get_scores dec ref\<close> stands for the F-measures of ROUGE-1, ROUGE-2 and ROUGE-L that
  it returns.
\<close>

definition fast_rouge :: "(string \<Rightarrow> string \<Rightarrow> real \<times> real \<times> real) \<Rightarrow> string \<Rightarrow> string \<Rightarrow> real" where
  "fast_rouge get_scores dec ref =
     (if dec = [] \<or> ref = [] then 0
      else (case get_scores dec ref of (r1, r2, rl) \<Rightarrow> (r1 + r2 + rl) / 3))"

text \<open>
  The body of the loop of \<^verbatim>\<open>evaluate\<close> (lines 100 to 113) for one row.
  \<^verbatim>\<open>ext_idx.sort()\<close> sorts the list object that the example holds, so the example is
  updated in place before the sentences are looked up.
\<close>

definition evaluate_row ::
  "(string \<Rightarrow> string \<Rightarrow> real \<times> real \<times> real) \<Rightarrow> real list \<Rightarrow> valid_metric \<Rightarrow> unit outcome \<times> valid_metric" where
  "evaluate_row get_scores row s =
     (let max_idx = argmax row in
      if length (data s) \<le> cur_idx s then (Raises IndexError, s)
      else
        let ex = data s ! cur_idx s in
        if length (indices ex) \<le> max_idx
        then (Returns (), s\<lparr>Error := Error s + 1, cur_idx := cur_idx s + 1\<rparr>)
        else
          let ext_idx = sort (indices ex ! max_idx);
              s1 = s\<lparr>data := (data s)[cur_idx s := ex\<lparr>indices := (indices ex)[max_idx := ext_idx]\<rparr>]\<rparr>;
              ref = join_space (summary ex)
          in case py_gets (ex_text ex) ext_idx of
               None \<Rightarrow> (Raises IndexError, s1)
             | Some dec \<Rightarrow>
                 (Returns (),
                  s1\<lparr>ROUGE := ROUGE s1 + fast_rouge get_scores (join_space dec) ref,
                     cur_idx := cur_idx s1 + 1\<rparr>))"

fun evaluate_rows ::
  "(string \<Rightarrow> string \<Rightarrow> real \<times> real \<times> real) \<Rightarrow> real list list \<Rightarrow> valid_metric \<Rightarrow> unit outcome \<times> valid_metric" where
  "evaluate_rows get_scores [] s = (Returns (), s)"
| "evaluate_rows get_scores (row # rows) s =
     (case evaluate_row get_scores row s of
        (Returns u, s') \<Rightarrow> evaluate_rows get_scores rows s'
      | (Raises e, s') \<Rightarrow> (Raises e, s'))"

text \<open>
  \<^verbatim>\<open>evaluate\<close>. The batch is the list of its rows. \<^verbatim>\<open>torch.max(score, dim=1)\<close> refuses
  a reduction over a dimension of size 0; otherwise the three counters are updated from
  the whole batch before the loop over the rows starts.
\<close>

definition count_eq :: "nat \<Rightarrow> nat list \<Rightarrow> int" where
  "count_eq k idx = int (length (filter (\<lambda>m. m = k) idx))"

definition count_le :: "nat \<Rightarrow> nat list \<Rightarrow> int" where
  "count_le k idx = int (length (filter (\<lambda>m. m \<le> k) idx))"

definition evaluate ::
  "(string \<Rightarrow> string \<Rightarrow> real \<times> real \<times> real) \<Rightarrow> real list list \<Rightarrow> valid_metric \<Rightarrow> unit outcome \<times> valid_metric" where
  "evaluate get_scores score s =
     (if [] \<in> set score then (Raises TorchError, s)
      else
        let idx = map argmax score;
            s1 = s\<lparr>top1_correct := top1_correct s + count_eq 0 idx,
                   top6_correct := top6_correct s + count_le 5 idx,
                   top10_correct := top10_correct s + count_le 9 idx\<rparr>
        in evaluate_rows get_scores score s1)"

text \<open>
  \<^verbatim>\<open>get_metric\<close>. The divisions come first, so an empty accumulation raises before the
  log file is touched. The report is the dict literal, as its list of items.
\<close>

definition get_metric :: "bool \<Rightarrow> valid_metric \<Rightarrow> (string \<times> pyval) list outcome \<times> valid_metric" where
  "get_metric reset s =
     (if cur_idx s = 0 then (Raises ZeroDivisionError, s)
      else
        let top1_accuracy = real_of_int (top1_correct s) / real (cur_idx s);
            top6_accuracy = real_of_int (top6_correct s) / real (cur_idx s);
            top10_accuracy = real_of_int (top10_correct s) / real (cur_idx s);
            ROUGE' = ROUGE s / real (cur_idx s);
            eval_result =
              [(''top1_accuracy'', PyFloat top1_accuracy),
               (''top6_accuracy'', PyFloat top6_accuracy),
               (''top10_accuracy'', PyFloat top10_accuracy),
               (''Error'', PyInt (Error s)),
               (''ROUGE'', PyFloat ROUGE')];
            s1 = s\<lparr>train_info := train_info s @
                     [(top1_accuracy, top6_accuracy, top10_accuracy, Error s, ROUGE')]\<rparr>;
            s2 = (if reset
                  then s1\<lparr>top1_correct := 0, top6_correct := 0, top10_correct := 0,
                          ROUGE := 0, Error := 0, cur_idx := 0\<rparr>
                  else s1)
        in (Returns eval_result, s2))"

text \<open>A run of \<^verbatim>\<open>evaluate\<close> calls, one per batch, stopping at the first that raises.\<close>

fun evaluate_seq ::
  "(string \<Rightarrow> string \<Rightarrow> real \<times> real \<times> real) \<Rightarrow> real list list list \<Rightarrow> valid_metric \<Rightarrow> unit outcome \<times> valid_metric" where
  "evaluate_seq get_scores [] s = (Returns (), s)"
| "evaluate_seq get_scores (score # scores) s =
     (case evaluate get_scores score s of
        (Returns u, s') \<Rightarrow> evaluate_seq get_scores scores s'
      | (Raises e, s') \<Rightarrow> (Raises e, s'))"


text \<open>
  The rows of a batch next to the example each of them meets: the cursor moves by one per
  row, so row \<open>i\<close> meets the example at position cursor + \<open>i\<close>.
\<close>

definition row_examples :: "example list \<Rightarrow> nat \<Rightarrow> real list list \<Rightarrow> (real list \<times> example) list" where
  "row_examples d c score = zip score (drop c d)"

text \<open>A row selects a padded candidate: its arg-max is no index of the example's index sets.\<close>

definition is_padding :: "real list \<times> example \<Rightarrow> bool" where
  "is_padding re = (length (indices (snd re)) \<le> argmax (fst re))"

text \<open>The approximate ROUGE of the candidate that a row selects in its example.\<close>

definition rouge_of :: "(string \<Rightarrow> string \<Rightarrow> real \<times> real \<times> real) \<Rightarrow> real list \<times> example \<Rightarrow> real" where
  "rouge_of get_scores re =
     (case py_gets (ex_text (snd re)) (sort (indices (snd re) ! argmax (fst re))) of
        None \<Rightarrow> 0
      | Some dec \<Rightarrow> fast_rouge get_scores (join_space dec) (join_space (summary (snd re))))"

text \<open>The numeric value that a report holds under a key.\<close>

definition report_value :: "(string \<times> pyval) list outcome \<Rightarrow> string \<Rightarrow> real option" where
  "report_value r k =
     (case r of Raises e \<Rightarrow> None | Returns rep \<Rightarrow> map_option pyval_num (map_of rep k))"

text \<open>A row selects an index set of its example whose sentence indices all resolve.\<close>

definition resolves :: "real list \<times> example \<Rightarrow> bool" where
  "resolves re =
     (case py_gets (ex_text (snd re)) (sort (indices (snd re) ! argmax (fst re))) of
        None \<Rightarrow> False
      | Some dec \<Rightarrow> True)"





section \<open>MatchRougeMetric\<close>

text \<open>
  The files of the decoded and reference directories: a path holds the text written to
  it. \<^verbatim>\<open>open(path, 'w')\<close> creates the file or replaces its content. The fields and
  methods that \<^verbatim>\<open>ValidMetric\<close> has under the same name carry the prefix \<open>mr_\<close>.
\<close>

type_synonym files = "string \<rightharpoonup> string"

record match_rouge_metric =
  mr_data :: "example list"
  dec_path :: string
  ref_path :: string
  n_total :: int
  mr_cur_idx :: nat
  ext :: "nat list"
  start :: real

text \<open>\<^verbatim>\<open>__init__\<close>; \<open>now\<close> is what \<^verbatim>\<open>time()\<close> returns.\<close>

definition MatchRougeMetric_init ::
  "real \<Rightarrow> example list \<Rightarrow> string \<Rightarrow> string \<Rightarrow> int \<Rightarrow> match_rouge_metric" where
  "MatchRougeMetric_init now d dp rp n =
     \<lparr>mr_data = d, dec_path = dp, ref_path = rp, n_total = n, mr_cur_idx = 0, ext = [],
      start = now\<rparr>"

text \<open>
  \<^verbatim>\<open>evaluate\<close>. \<^verbatim>\<open>int(...)\<close> of the index tensor needs a batch of exactly one row. The
  progress line divides by \<^verbatim>\<open>n_total\<close> after the selection was recorded; what it prints
  is not kept.
\<close>

definition mr_evaluate :: "real list list \<Rightarrow> match_rouge_metric \<Rightarrow> unit outcome \<times> match_rouge_metric" where
  "mr_evaluate score s =
     (if [] \<in> set score then (Raises TorchError, s)
      else case score of
        [row] \<Rightarrow>
          let s1 = s\<lparr>ext := ext s @ [argmax row], mr_cur_idx := mr_cur_idx s + 1\<rparr>
          in if n_total s = 0 then (Raises ZeroDivisionError, s1) else (Returns (), s1)
      | _ \<Rightarrow> (Raises TorchError, s))"

fun mr_evaluate_seq :: "real list list list \<Rightarrow> match_rouge_metric \<Rightarrow> unit outcome \<times> match_rouge_metric" where
  "mr_evaluate_seq [] s = (Returns (), s)"
| "mr_evaluate_seq (score # scores) s =
     (case mr_evaluate score s of
        (Returns u, s') \<Rightarrow> mr_evaluate_seq scores s'
      | (Raises e, s') \<Rightarrow> (Raises e, s'))"

text \<open>\<^verbatim>\<open>'{}'.format(i)\<close> for a natural number: its decimal digits.\<close>

definition digit :: "nat \<Rightarrow> char" where
  "digit d = char_of (48 + d)"

fun str_nat :: "nat \<Rightarrow> string" where
  "str_nat n = (if n < 10 then [digit n] else str_nat (n div 10) @ [digit (n mod 10)])"

declare str_nat.simps [simp del]

text \<open>\<^verbatim>\<open>os.path.join\<close> of two components, on a POSIX system.\<close>

definition join :: "string \<Rightarrow> string \<Rightarrow> string" where
  "join a b =
     (if b \<noteq> [] \<and> hd b = CHR ''/'' then b
      else if a = [] \<or> last a = CHR ''/'' then a @ b
      else a @ ''/'' @ b)"

text \<open>What a loop of \<^verbatim>\<open>print(sent, file=f)\<close> writes: each sentence and a newline.\<close>

definition print_lines :: "string list \<Rightarrow> string" where
  "print_lines sents = concat (map (\<lambda>sent. sent @ [CHR 0x0A]) sents)"

definition dec_file :: "string \<Rightarrow> nat \<Rightarrow> string" where
  "dec_file dp i = join dp (str_nat i @ ''.dec'')"

definition ref_file :: "string \<Rightarrow> nat \<Rightarrow> string" where
  "ref_file rp i = join rp (str_nat i @ ''.ref'')"

text \<open>
  The loop of \<^verbatim>\<open>get_metric\<close> (lines 158 to 172), from example number \<open>i\<close> on. The files
  written before an IndexError stay written.
\<close>

fun write_files ::
  "example list \<Rightarrow> string \<Rightarrow> string \<Rightarrow> nat \<Rightarrow> nat list \<Rightarrow> files \<Rightarrow> error option \<times> files" where
  "write_files d dp rp i [] fs = (None, fs)"
| "write_files d dp rp i (e # es) fs =
     (if length d \<le> i then (Some IndexError, fs)
      else if length (indices (d ! i)) \<le> e then (Some IndexError, fs)
      else
        case py_gets (ex_text (d ! i)) (indices (d ! i) ! e) of
          None \<Rightarrow> (Some IndexError, fs)
        | Some dec \<Rightarrow>
            write_files d dp rp (Suc i) es
              (fs(dec_file dp i \<mapsto> print_lines dec, ref_file rp i \<mapsto> print_lines (summary (d ! i)))))"

text \<open>
  \<^verbatim>\<open>get_metric\<close>. \<^verbatim>\<open>eval_rouge\<close> drives the external ROUGE-1.5.5 toolchain (pyrouge's
  conversion, the perl script, the parse of its output); it is taken as a function of the
  files and the two directories that returns the three scores or raises, and the files
  afterwards. \<open>now\<close> is what \<^verbatim>\<open>time()\<close> returns at the reset.
\<close>

definition mr_get_metric ::
  "(files \<Rightarrow> string \<Rightarrow> string \<Rightarrow> (real \<times> real \<times> real) outcome \<times> files) \<Rightarrow> real \<Rightarrow> bool \<Rightarrow>
   match_rouge_metric \<Rightarrow> files \<Rightarrow> (string \<times> pyval) list outcome \<times> match_rouge_metric \<times> files" where
  "mr_get_metric eval_rouge now reset s fs =
     (case write_files (mr_data s) (dec_path s) (ref_path s) 0 (ext s) fs of
        (Some e, fs1) \<Rightarrow> (Raises e, s, fs1)
      | (None, fs1) \<Rightarrow>
          (case eval_rouge fs1 (dec_path s) (ref_path s) of
             (Raises e, fs2) \<Rightarrow> (Raises e, s, fs2)
           | (Returns (R_1, R_2, R_L), fs2) \<Rightarrow>
               let eval_result =
                     [(''ROUGE-1'', PyFloat R_1), (''ROUGE-2'', PyFloat R_2), (''ROUGE-L'', PyFloat R_L)];
                   s1 = (if reset
                         then s\<lparr>mr_cur_idx := 0, ext := [], mr_data := [], start := now\<rparr>
                         else s)
               in (Returns eval_result, s1, fs2)))"

text \<open>
  The lines of a text, as \<^verbatim>\<open>str.splitlines\<close> cuts it at newline characters: \<open>cur\<close> is
  the line read so far. This is what is meant by a file that holds one sentence per line.
\<close>

fun lines_from :: "string \<Rightarrow> string \<Rightarrow> string list" where
  "lines_from cur [] = (if cur = [] then [] else [cur])"
| "lines_from cur (c # cs) =
     (if c = CHR 0x0A then cur # lines_from [] cs else lines_from (cur @ [c]) cs)"

definition split_lines :: "string \<Rightarrow> string list" where
  "split_lines txt = lines_from [] txt"


section \<open>A small run\<close>

text \<open>
  Two examples, a three-column batch of two rows whose second row selects a padded
  candidate, and a stand-in for the external scorer; they serve as concrete inputs below.
\<close>

definition demo_data :: "example list" where
  "demo_data =
     [\<lparr>ex_text = [''a b'', ''c'', ''d e''], summary = [''a b'', ''d''], indices = [[2, 0], [1]]\<rparr>,
      \<lparr>ex_text = [''f'', ''g''], summary = [''g''], indices = [[1]]\<rparr>]"

definition demo_get_scores :: "string \<Rightarrow> string \<Rightarrow> real \<times> real \<times> real" where
  "demo_get_scores dec ref = (if dec = ref then (1, 1, 1) else (1 / 2, 0, 1 / 2))"

definition demo_score :: "real list list" where
  "demo_score = [[3, 1, 2], [1, 4, 0]]"

definition demo_scores :: "real list list list" where
  "demo_scores = [[[3, 1, 2]], [[5, 4]]]"


text \<open>
  For the second metric: a stand-in for the external scorer, which also leaves its report
  file behind, a fresh metric over the same examples, and the metric after the two
  examples were observed one by one.
\<close>

definition demo_eval_rouge :: "files \<Rightarrow> string \<Rightarrow> string \<Rightarrow> (real \<times> real \<times> real) outcome \<times> files" where
  "demo_eval_rouge fs dp rp = (Returns (1 / 2, 1 / 4, 1 / 3), fs(join dp ''../ROUGE.txt'' \<mapsto> ''scores''))"

definition demo_metric :: match_rouge_metric where
  "demo_metric = MatchRougeMetric_init 0 demo_data ''dec'' ''ref'' 2"

definition demo_observed :: match_rouge_metric where
  "demo_observed = \<lparr>mr_data = demo_data, dec_path = ''dec'', ref_path = ''ref'', n_total = 2,
                   mr_cur_idx = 2, ext = [0, 0], start = 0\<rparr>"


section \<open>The arg-max\<close>

text \<open>
  \<open>argmax\<close> is what \<^verbatim>\<open>torch.max(...).indices\<close> returns on a non-empty row: an index of
  the row, holding a maximal entry, with only smaller entries before it.
\<close>

lemma argmax_less: "row \<noteq> [] \<Longrightarrow> argmax row < length row"
  by (induction row rule: argmax.induct) (auto simp: Let_def)

lemma argmax_max: "x \<in> set row \<Longrightarrow> x \<le> row ! argmax row"
proof (induction row arbitrary: x rule: argmax.induct)
  case 1
  then show ?case by simp
next
  case (2 y)
  then show ?case by simp
next
  case (3 a b bs)
  show ?case
  proof (cases "x = a")
    case True
    then show ?thesis by (simp add: Let_def)
  next
    case False
    with 3 have "x \<le> (b # bs) ! argmax (b # bs)" by auto
    then show ?thesis by (auto simp: Let_def)
  qed
qed

lemma argmax_first: "j < argmax row \<Longrightarrow> row ! j < row ! argmax row"
proof (induction row arbitrary: j rule: argmax.induct)
  case 1
  then show ?case by simp
next
  case (2 y)
  then show ?case by simp
next
  case (3 a b bs)
  from "3.prems" have gt: "a < (b # bs) ! argmax (b # bs)" and eq: "argmax (a # b # bs) = Suc (argmax (b # bs))"
    by (auto simp: Let_def split: if_splits)
  show ?case
  proof (cases j)
    case 0
    then show ?thesis using gt eq by simp
  next
    case (Suc k)
    with "3.prems" eq have "k < argmax (b # bs)" by simp
    from "3.IH"[OF this] show ?thesis using Suc eq by simp
  qed
qed


section \<open>ValidMetric: the loop over the rows\<close>

lemma evaluate_row_Returns:
  assumes "evaluate_row gs row s = (Returns u, s')"
  shows "cur_idx s < length (data s)"
    and "cur_idx s' = Suc (cur_idx s)"
    and "length (data s') = length (data s)"
    and "drop (Suc (cur_idx s)) (data s') = drop (Suc (cur_idx s)) (data s)"
    and "Error s' = Error s + (if is_padding (row, data s ! cur_idx s) then 1 else 0)"
    and "ROUGE s' = ROUGE s + (if is_padding (row, data s ! cur_idx s) then 0 else rouge_of gs (row, data s ! cur_idx s))"
  using assms
  by (auto simp: evaluate_row_def Let_def is_padding_def rouge_of_def split: if_splits option.splits)

lemma evaluate_row_top:
  "top1_correct (snd (evaluate_row gs row s)) = top1_correct s"
  "top6_correct (snd (evaluate_row gs row s)) = top6_correct s"
  "top10_correct (snd (evaluate_row gs row s)) = top10_correct s"
  by (auto simp: evaluate_row_def Let_def split: if_splits option.splits)

lemma evaluate_rows_top:
  "top1_correct (snd (evaluate_rows gs rows s)) = top1_correct s \<and>
   top6_correct (snd (evaluate_rows gs rows s)) = top6_correct s \<and>
   top10_correct (snd (evaluate_rows gs rows s)) = top10_correct s"
proof (induction rows arbitrary: s)
  case Nil
  show ?case by simp
next
  case (Cons row rows)
  obtain r s1 where st: "evaluate_row gs row s = (r, s1)" by (cases "evaluate_row gs row s")
  have t: "top1_correct s1 = top1_correct s" "top6_correct s1 = top6_correct s" "top10_correct s1 = top10_correct s"
    using evaluate_row_top[of gs row s] st by simp_all
  show ?case
  proof (cases r)
    case (Returns u)
    then show ?thesis using st t Cons.IH[of s1] by simp
  next
    case (Raises e)
    then show ?thesis using st t by simp
  qed
qed

lemma evaluate_rows_Returns:
  "evaluate_rows gs rows s = (Returns u, s') \<Longrightarrow>
   cur_idx s' = cur_idx s + length rows \<and>
   length (row_examples (data s) (cur_idx s) rows) = length rows \<and>
   length (data s') = length (data s) \<and>
   drop (cur_idx s + length rows) (data s') = drop (cur_idx s + length rows) (data s) \<and>
   Error s' = Error s + int (length (filter is_padding (row_examples (data s) (cur_idx s) rows))) \<and>
   ROUGE s' = ROUGE s + sum_list (map (rouge_of gs) (filter (\<lambda>re. \<not> is_padding re) (row_examples (data s) (cur_idx s) rows)))"
proof (induction rows arbitrary: s)
  case Nil
  then show ?case by (simp add: row_examples_def)
next
  case (Cons row rows)
  obtain r s1 where st: "evaluate_row gs row s = (r, s1)" by (cases "evaluate_row gs row s")
  with Cons.prems obtain v where r: "r = Returns v" by (cases r) auto
  from st r Cons.prems have rest: "evaluate_rows gs rows s1 = (Returns u, s')" by simp
  note step = evaluate_row_Returns[OF st[unfolded r]]
  note ih = Cons.IH[OF rest]
  have dr: "drop (cur_idx s) (data s) = data s ! cur_idx s # drop (Suc (cur_idx s)) (data s)"
    using step(1) by (simp add: Cons_nth_drop_Suc)
  have re: "row_examples (data s) (cur_idx s) (row # rows) =
            (row, data s ! cur_idx s) # row_examples (data s1) (cur_idx s1) rows"
    unfolding row_examples_def using dr step(2,4) by simp
  have d2: "drop (cur_idx s + length (row # rows)) (data s') = drop (cur_idx s + length (row # rows)) (data s)"
  proof -
    have "drop (cur_idx s1 + length rows) (data s') = drop (cur_idx s1 + length rows) (data s1)"
      using ih by simp
    moreover have "drop (cur_idx s1 + length rows) (data s1) = drop (length rows) (drop (Suc (cur_idx s)) (data s1))"
      using step(2) by (simp add: add.commute)
    moreover have "drop (cur_idx s1 + length rows) (data s) = drop (length rows) (drop (Suc (cur_idx s)) (data s))"
      using step(2) by (simp add: add.commute)
    ultimately show ?thesis using step(2,4) by simp
  qed
  show ?case
    using ih step(1,2,3,5,6) d2 unfolding re by (simp split: if_splits)
qed

lemma evaluate_top:
  assumes "[] \<notin> set score"
  shows "top1_correct (snd (evaluate gs score s)) = top1_correct s + int (length (filter (\<lambda>row. argmax row = 0) score))"
    and "top6_correct (snd (evaluate gs score s)) = top6_correct s + int (length (filter (\<lambda>row. argmax row \<le> 5) score))"
    and "top10_correct (snd (evaluate gs score s)) = top10_correct s + int (length (filter (\<lambda>row. argmax row \<le> 9) score))"
  using assms evaluate_rows_top
  by (simp_all add: evaluate_def Let_def count_eq_def count_le_def comp_def)

lemma evaluate_Returns:
  assumes "evaluate gs score s = (Returns u, s')"
  shows "[] \<notin> set score"
    and "cur_idx s' = cur_idx s + length score"
    and "length (row_examples (data s) (cur_idx s) score) = length score"
    and "Error s' = Error s + int (length (filter is_padding (row_examples (data s) (cur_idx s) score)))"
    and "ROUGE s' = ROUGE s + sum_list (map (rouge_of gs) (filter (\<lambda>re. \<not> is_padding re) (row_examples (data s) (cur_idx s) score)))"
proof -
  show ne: "[] \<notin> set score" using assms by (auto simp: evaluate_def)
  define s1 where "s1 = s\<lparr>top1_correct := top1_correct s + count_eq 0 (map argmax score),
                   top6_correct := top6_correct s + count_le 5 (map argmax score),
                   top10_correct := top10_correct s + count_le 9 (map argmax score)\<rparr>"
  have r: "evaluate_rows gs score s1 = (Returns u, s')"
    using assms ne by (simp add: evaluate_def Let_def s1_def)
  have f: "data s1 = data s" "cur_idx s1 = cur_idx s" "Error s1 = Error s" "ROUGE s1 = ROUGE s"
    by (simp_all add: s1_def)
  from evaluate_rows_Returns[OF r]
  show "cur_idx s' = cur_idx s + length score"
    and "length (row_examples (data s) (cur_idx s) score) = length score"
    and "Error s' = Error s + int (length (filter is_padding (row_examples (data s) (cur_idx s) score)))"
    and "ROUGE s' = ROUGE s + sum_list (map (rouge_of gs) (filter (\<lambda>re. \<not> is_padding re) (row_examples (data s) (cur_idx s) score)))"
    unfolding f by simp_all
qed

lemmas demo_defs = evaluate_def evaluate_row_def demo_score_def demo_data_def ValidMetric_init_def Let_def
      count_eq_def count_le_def py_get_def fast_rouge_def demo_get_scores_def

lemma demo_state:
  "snd (evaluate demo_get_scores demo_score (ValidMetric_init ''out'' demo_data)) =
  \<lparr>save_path = ''out'',
     data =
       [\<lparr>ex_text = [''a b'', ''c'', ''d e''], summary = [''a b'', ''d''],
           indices = [[0, 2], [1]]\<rparr>,
        \<lparr>ex_text = [''f'', ''g''], summary = [''g''], indices = [[1]]\<rparr>],
     top1_correct = 1, top6_correct = 2, top10_correct = 2, ROUGE = 1 / 3,
     Error = 1, cur_idx = 2, train_info = []\<rparr>"
  by (simp add: demo_defs)


section \<open>Module load\<close>

text \<open>
  C1 (as the code behaves). Loading the module never reaches the lookup of ROUGE_PATH:
  the name \<^verbatim>\<open>os\<close> is not bound, so whatever the environment holds the load ends with
  an uncaught NameError; in particular with ROUGE_PATH absent no message is printed and
  \<^verbatim>\<open>sys.exit(1)\<close> is not called.
\<close>

theorem load_module_name_error:
  "load_module environ = Uncaught NameError"
  by (simp add: load_module_def module_names_def)


section \<open>ValidMetric: the report\<close>

text \<open>
  C4 (amended). When at least one row has been observed, \<^verbatim>\<open>get_metric\<close> returns the
  report with the keys top1_accuracy, top6_accuracy, top10_accuracy, Error and ROUGE, in
  this order; the three top-k counters and the ROUGE accumulator are divided by the
  cursor, and the Error entry is the accumulated count itself, not divided.
\<close>

theorem get_metric_report:
  assumes "cur_idx s \<noteq> 0"
  shows "fst (get_metric reset s) =
           Returns [(''top1_accuracy'', PyFloat (real_of_int (top1_correct s) / real (cur_idx s))),
                    (''top6_accuracy'', PyFloat (real_of_int (top6_correct s) / real (cur_idx s))),
                    (''top10_accuracy'', PyFloat (real_of_int (top10_correct s) / real (cur_idx s))),
                    (''Error'', PyInt (Error s)),
                    (''ROUGE'', PyFloat (ROUGE s / real (cur_idx s)))]"
  using assms by (simp add: get_metric_def Let_def)

theorem get_metric_report_witness:
  "cur_idx (snd (evaluate demo_get_scores demo_score (ValidMetric_init ''out'' demo_data))) \<noteq> 0 \<and>
   fst (get_metric False (snd (evaluate demo_get_scores demo_score (ValidMetric_init ''out'' demo_data)))) =
     Returns [(''top1_accuracy'', PyFloat (1 / 2)), (''top6_accuracy'', PyFloat 1),
              (''top10_accuracy'', PyFloat 1), (''Error'', PyInt 1), (''ROUGE'', PyFloat (1 / 6))]"
proof -
  have h: "cur_idx (snd (evaluate demo_get_scores demo_score (ValidMetric_init ''out'' demo_data))) \<noteq> 0"
    unfolding demo_state by simp
  show ?thesis
    using get_metric_report[OF h, of False] h unfolding demo_state by simp
qed

text \<open>
  C4 as stated fails: after the small run one of two rows was a padding row, the report
  holds Error = 1, and the count divided by the number of observed rows is 1/2.
\<close>

theorem get_metric_Error_not_divided:
  "report_value (fst (get_metric True (snd (evaluate demo_get_scores demo_score (ValidMetric_init ''out'' demo_data))))) ''Error''
   \<noteq> Some (real_of_int (Error (snd (evaluate demo_get_scores demo_score (ValidMetric_init ''out'' demo_data))))
          / real (cur_idx (snd (evaluate demo_get_scores demo_score (ValidMetric_init ''out'' demo_data)))))"
  unfolding demo_state by (simp add: get_metric_def Let_def report_value_def)


section \<open>ValidMetric: padding rows and the cursor\<close>

lemma evaluate_row_padding:
  assumes "cur_idx s < length (data s)" and "length (indices (data s ! cur_idx s)) \<le> argmax row"
  shows "evaluate_row gs row s = (Returns (), s\<lparr>Error := Error s + 1, cur_idx := cur_idx s + 1\<rparr>)"
  using assms by (simp add: evaluate_row_def Let_def)

lemma evaluate_row_total:
  assumes "cur_idx s < length (data s)"
    and "is_padding (row, data s ! cur_idx s) \<or> resolves (row, data s ! cur_idx s)"
  shows "fst (evaluate_row gs row s) = Returns ()"
  using assms by (auto simp: evaluate_row_def Let_def is_padding_def resolves_def split: option.splits)

lemma evaluate_rows_total:
  "length (row_examples (data s) (cur_idx s) rows) = length rows \<Longrightarrow>
   list_all (\<lambda>re. is_padding re \<or> resolves re) (row_examples (data s) (cur_idx s) rows) \<Longrightarrow>
   fst (evaluate_rows gs rows s) = Returns ()"
proof (induction rows arbitrary: s)
  case Nil
  show ?case by simp
next
  case (Cons row rows)
  have c: "cur_idx s < length (data s)"
  proof (rule ccontr)
    assume "\<not> cur_idx s < length (data s)"
    then have "drop (cur_idx s) (data s) = []" by simp
    then show False using Cons.prems(1) by (simp add: row_examples_def)
  qed
  have dr: "drop (cur_idx s) (data s) = data s ! cur_idx s # drop (Suc (cur_idx s)) (data s)"
    using c by (simp add: Cons_nth_drop_Suc)
  have re: "row_examples (data s) (cur_idx s) (row # rows) =
            (row, data s ! cur_idx s) # zip rows (drop (Suc (cur_idx s)) (data s))"
    unfolding row_examples_def dr by simp
  have ok: "is_padding (row, data s ! cur_idx s) \<or> resolves (row, data s ! cur_idx s)"
    using Cons.prems(2) unfolding re by simp
  obtain r s1 where st: "evaluate_row gs row s = (r, s1)" by (cases "evaluate_row gs row s")
  have r: "r = Returns ()" using evaluate_row_total[OF c ok, of gs] st by simp
  note step = evaluate_row_Returns[OF st[unfolded r]]
  have re1: "row_examples (data s1) (cur_idx s1) rows = zip rows (drop (Suc (cur_idx s)) (data s))"
    unfolding row_examples_def using step(2,4) by simp
  have "fst (evaluate_rows gs rows s1) = Returns ()"
    using Cons.prems unfolding re by (intro Cons.IH) (simp_all add: re1)
  then show ?case using st r by simp
qed

text \<open>
  C5. A row whose arg-max is at least the number of index sets of the example at the
  cursor is processed without raising: the Error counter grows by exactly 1, the cursor
  by exactly 1, and nothing else changes, the ROUGE accumulator included. Every row that
  is processed advances the cursor by exactly 1, whichever branch it takes. A batch
  without an empty row, whose rows all meet an example and either select a padded
  candidate or an index set that resolves, is processed without raising. And when
  \<^verbatim>\<open>evaluate\<close> returns on a batch, the cursor has advanced by one per row, the Error
  counter has grown by the number of padding rows, and the ROUGE accumulator has grown by
  the scores of the other rows only.
\<close>

theorem evaluate_padding_rows:
  "(cur_idx s < length (data s) \<and> length (indices (data s ! cur_idx s)) \<le> argmax row \<longrightarrow>
      evaluate_row gs row s = (Returns (), s\<lparr>Error := Error s + 1, cur_idx := cur_idx s + 1\<rparr>)) \<and>
   (evaluate_row gs row s = (Returns u, s1) \<longrightarrow> cur_idx s1 = cur_idx s + 1) \<and>
   ([] \<notin> set score \<and> length (row_examples (data s) (cur_idx s) score) = length score \<and>
    list_all (\<lambda>re. is_padding re \<or> resolves re) (row_examples (data s) (cur_idx s) score) \<longrightarrow>
      fst (evaluate gs score s) = Returns ()) \<and>
   (evaluate gs score s = (Returns u, s') \<longrightarrow>
      cur_idx s' = cur_idx s + length score \<and>
      length (row_examples (data s) (cur_idx s) score) = length score \<and>
      Error s' = Error s + int (length (filter is_padding (row_examples (data s) (cur_idx s) score))) \<and>
      ROUGE s' = ROUGE s + sum_list (map (rouge_of gs)
                   (filter (\<lambda>re. \<not> is_padding re) (row_examples (data s) (cur_idx s) score))))"
proof (intro conjI impI)
  assume "cur_idx s < length (data s) \<and> length (indices (data s ! cur_idx s)) \<le> argmax row"
  then show "evaluate_row gs row s = (Returns (), s\<lparr>Error := Error s + 1, cur_idx := cur_idx s + 1\<rparr>)"
    by (intro evaluate_row_padding) simp_all
next
  assume "evaluate_row gs row s = (Returns u, s1)"
  from evaluate_row_Returns(2)[OF this] show "cur_idx s1 = cur_idx s + 1" by simp
next
  assume a: "[] \<notin> set score \<and> length (row_examples (data s) (cur_idx s) score) = length score \<and>
    list_all (\<lambda>re. is_padding re \<or> resolves re) (row_examples (data s) (cur_idx s) score)"
  define s1 where "s1 = s\<lparr>top1_correct := top1_correct s + count_eq 0 (map argmax score),
                   top6_correct := top6_correct s + count_le 5 (map argmax score),
                   top10_correct := top10_correct s + count_le 9 (map argmax score)\<rparr>"
  have e: "evaluate gs score s = evaluate_rows gs score s1"
    using a by (simp add: evaluate_def Let_def s1_def)
  have f: "data s1 = data s" "cur_idx s1 = cur_idx s" by (simp_all add: s1_def)
  show "fst (evaluate gs score s) = Returns ()"
    unfolding e using a by (intro evaluate_rows_total) (simp_all add: f)
next
  assume r: "evaluate gs score s = (Returns u, s')"
  show "cur_idx s' = cur_idx s + length score"
    and "length (row_examples (data s) (cur_idx s) score) = length score"
    and "Error s' = Error s + int (length (filter is_padding (row_examples (data s) (cur_idx s) score)))"
    and "ROUGE s' = ROUGE s + sum_list (map (rouge_of gs)
                   (filter (\<lambda>re. \<not> is_padding re) (row_examples (data s) (cur_idx s) score)))"
    using evaluate_Returns(2-5)[OF r] by simp_all
qed

theorem evaluate_padding_rows_witness:
  "evaluate_row demo_get_scores [1, 4, 0] (ValidMetric_init ''out'' (rev demo_data)) =
     (Returns (), (ValidMetric_init ''out'' (rev demo_data))\<lparr>Error := 1, cur_idx := 1\<rparr>) \<and>
   evaluate demo_get_scores (rev demo_score) (ValidMetric_init ''out'' (rev demo_data)) =
     (Returns (), snd (evaluate demo_get_scores (rev demo_score) (ValidMetric_init ''out'' (rev demo_data)))) \<and>
   cur_idx (snd (evaluate demo_get_scores (rev demo_score) (ValidMetric_init ''out'' (rev demo_data)))) = 2 \<and>
   Error (snd (evaluate demo_get_scores (rev demo_score) (ValidMetric_init ''out'' (rev demo_data)))) = 1 \<and>
   ROUGE (snd (evaluate demo_get_scores (rev demo_score) (ValidMetric_init ''out'' (rev demo_data)))) = 1 / 3"
proof -
  let ?s = "ValidMetric_init ''out'' (rev demo_data)"
  let ?s' = "snd (evaluate demo_get_scores (rev demo_score) ?s)"
  note t = evaluate_padding_rows[where s = ?s and row = "[1, 4, 0]" and gs = demo_get_scores
      and score = "rev demo_score" and s' = ?s']
  have i: "cur_idx ?s = 0" "Error ?s = 0" "ROUGE ?s = 0" "data ?s = rev demo_data"
    by (simp_all add: ValidMetric_init_def)
  have re: "row_examples (rev demo_data) 0 (rev demo_score) =
              [([1, 4, 0], demo_data ! 1), ([3, 1, 2], demo_data ! 0)]"
    by (simp add: row_examples_def demo_data_def demo_score_def)
  have pad: "is_padding ([1, 4, 0], demo_data ! 1)" "\<not> is_padding ([3, 1, 2], demo_data ! 0)"
    by (simp_all add: is_padding_def demo_data_def)
  have res: "resolves ([3, 1, 2], demo_data ! 0)"
    by (simp add: resolves_def demo_data_def py_get_def)
  have rg: "rouge_of demo_get_scores ([3, 1, 2], demo_data ! 0) = 1 / 3"
    by (simp add: rouge_of_def demo_data_def py_get_def fast_rouge_def demo_get_scores_def)
  have h1: "cur_idx ?s < length (data ?s) \<and> length (indices (data ?s ! cur_idx ?s)) \<le> argmax [1, 4, 0]"
    unfolding i by (simp add: demo_data_def)
  have a: "evaluate_row demo_get_scores [1, 4, 0] ?s = (Returns (), ?s\<lparr>Error := 1, cur_idx := 1\<rparr>)"
    using t[THEN conjunct1, rule_format, OF h1] unfolding i by simp
  have h3: "[] \<notin> set (rev demo_score) \<and>
      length (row_examples (data ?s) (cur_idx ?s) (rev demo_score)) = length (rev demo_score) \<and>
      list_all (\<lambda>re. is_padding re \<or> resolves re) (row_examples (data ?s) (cur_idx ?s) (rev demo_score))"
    unfolding i re using pad res by (simp add: demo_score_def)
  have b: "fst (evaluate demo_get_scores (rev demo_score) ?s) = Returns ()"
    using t[THEN conjunct2, THEN conjunct2, THEN conjunct1, rule_format, OF h3] .
  have h4: "evaluate demo_get_scores (rev demo_score) ?s = (Returns (), ?s')"
    using b by (metis prod.collapse)
  have c: "cur_idx ?s' = 2 \<and> Error ?s' = 1 \<and> ROUGE ?s' = 1 / 3"
    using t[THEN conjunct2, THEN conjunct2, THEN conjunct2, rule_format, OF h4]
    unfolding i re using pad rg by (simp add: demo_score_def)
  show ?thesis using a h4 c by blast
qed


section \<open>ValidMetric: top-k accuracy\<close>

lemma evaluate_all_first:
  assumes "evaluate gs score s = (Returns u, s')" and "\<forall>row\<in>set score. argmax row = 0"
    and "top1_correct s = int (cur_idx s)" and "top6_correct s = int (cur_idx s)" and "top10_correct s = int (cur_idx s)"
  shows "top1_correct s' = int (cur_idx s') \<and> top6_correct s' = int (cur_idx s') \<and> top10_correct s' = int (cur_idx s')"
proof -
  note r = evaluate_Returns[OF assms(1)]
  have s': "s' = snd (evaluate gs score s)" using assms(1) by simp
  have f: "filter (\<lambda>row. argmax row = 0) score = score" "filter (\<lambda>row. argmax row \<le> 5) score = score"
      "filter (\<lambda>row. argmax row \<le> 9) score = score"
    using assms(2) by (simp_all add: filter_id_conv)
  show ?thesis
    using evaluate_top[OF r(1), of gs s] r(2) assms(3-5) unfolding f s' by simp
qed

lemma evaluate_seq_all_first:
  "evaluate_seq gs scores s = (Returns u, s') \<Longrightarrow> \<forall>score\<in>set scores. \<forall>row\<in>set score. argmax row = 0 \<Longrightarrow>
   top1_correct s = int (cur_idx s) \<Longrightarrow> top6_correct s = int (cur_idx s) \<Longrightarrow> top10_correct s = int (cur_idx s) \<Longrightarrow>
   top1_correct s' = int (cur_idx s') \<and> top6_correct s' = int (cur_idx s') \<and> top10_correct s' = int (cur_idx s') \<and>
   cur_idx s' = cur_idx s + length (concat scores)"
proof (induction scores arbitrary: s)
  case Nil
  then show ?case by simp
next
  case (Cons score scores)
  obtain r s1 where st: "evaluate gs score s = (r, s1)" by (cases "evaluate gs score s")
  with Cons.prems(1) obtain v where r: "r = Returns v" by (cases r) auto
  from st r Cons.prems(1) have rest: "evaluate_seq gs scores s1 = (Returns u, s')" by simp
  have inv: "top1_correct s1 = int (cur_idx s1) \<and> top6_correct s1 = int (cur_idx s1) \<and> top10_correct s1 = int (cur_idx s1)"
    using evaluate_all_first[OF st[unfolded r]] Cons.prems by simp
  have c: "cur_idx s1 = cur_idx s + length score"
    using evaluate_Returns(2)[OF st[unfolded r]] .
  show ?case
    using Cons.IH[OF rest] Cons.prems(2) inv c by simp
qed

text \<open>
  C6. \<^verbatim>\<open>evaluate\<close> adds to top-1 the number of rows whose arg-max is column 0, to top-6
  the number of rows whose arg-max is at most 5 and to top-10 the number of rows whose
  arg-max is at most 9. Hence, if a fresh metric has observed only batches in which every
  row's arg-max is column 0, and at least one row, the report holds top1_accuracy =
  top6_accuracy = top10_accuracy = 1.
\<close>

theorem evaluate_top_k:
  "([] \<notin> set score \<longrightarrow>
      top1_correct (snd (evaluate gs score s)) = top1_correct s + int (length (filter (\<lambda>row. argmax row = 0) score)) \<and>
      top6_correct (snd (evaluate gs score s)) = top6_correct s + int (length (filter (\<lambda>row. argmax row \<le> 5) score)) \<and>
      top10_correct (snd (evaluate gs score s)) = top10_correct s + int (length (filter (\<lambda>row. argmax row \<le> 9) score))) \<and>
   (evaluate_seq gs scores (ValidMetric_init path d) = (Returns u, s') \<and>
    (\<forall>score\<in>set scores. \<forall>row\<in>set score. argmax row = 0) \<and> concat scores \<noteq> [] \<longrightarrow>
      report_value (fst (get_metric reset s')) ''top1_accuracy'' = Some 1 \<and>
      report_value (fst (get_metric reset s')) ''top6_accuracy'' = Some 1 \<and>
      report_value (fst (get_metric reset s')) ''top10_accuracy'' = Some 1)"
proof (intro conjI impI)
  assume "[] \<notin> set score"
  then show "top1_correct (snd (evaluate gs score s)) = top1_correct s + int (length (filter (\<lambda>row. argmax row = 0) score))"
    and "top6_correct (snd (evaluate gs score s)) = top6_correct s + int (length (filter (\<lambda>row. argmax row \<le> 5) score))"
    and "top10_correct (snd (evaluate gs score s)) = top10_correct s + int (length (filter (\<lambda>row. argmax row \<le> 9) score))"
    by (rule evaluate_top)+
next
  assume a: "evaluate_seq gs scores (ValidMetric_init path d) = (Returns u, s') \<and>
    (\<forall>score\<in>set scores. \<forall>row\<in>set score. argmax row = 0) \<and> concat scores \<noteq> []"
  have inv: "top1_correct s' = int (cur_idx s') \<and> top6_correct s' = int (cur_idx s') \<and> top10_correct s' = int (cur_idx s') \<and>
   cur_idx s' = cur_idx (ValidMetric_init path d) + length (concat scores)"
    using a by (intro evaluate_seq_all_first[of gs scores _ u]) (simp_all add: ValidMetric_init_def)
  have pos: "cur_idx s' \<noteq> 0" using inv a by simp
  show "report_value (fst (get_metric reset s')) ''top1_accuracy'' = Some 1"
    and "report_value (fst (get_metric reset s')) ''top6_accuracy'' = Some 1"
    and "report_value (fst (get_metric reset s')) ''top10_accuracy'' = Some 1"
    using pos inv[THEN conjunct1] inv[THEN conjunct2, THEN conjunct1]
      inv[THEN conjunct2, THEN conjunct2, THEN conjunct1]
    by (simp_all add: get_metric_def Let_def report_value_def)
qed

theorem evaluate_top_k_witness:
  "[] \<notin> set demo_score \<and>
   top1_correct (snd (evaluate demo_get_scores demo_score (ValidMetric_init ''out'' demo_data))) = 1 \<and>
   top6_correct (snd (evaluate demo_get_scores demo_score (ValidMetric_init ''out'' demo_data))) = 2 \<and>
   top10_correct (snd (evaluate demo_get_scores demo_score (ValidMetric_init ''out'' demo_data))) = 2 \<and>
   evaluate_seq demo_get_scores demo_scores (ValidMetric_init ''out'' demo_data) =
     (Returns (), snd (evaluate_seq demo_get_scores demo_scores (ValidMetric_init ''out'' demo_data))) \<and>
   map (map argmax) demo_scores = [[0], [0]] \<and> concat demo_scores \<noteq> [] \<and>
   report_value (fst (get_metric True (snd (evaluate_seq demo_get_scores demo_scores (ValidMetric_init ''out'' demo_data))))) ''top1_accuracy'' = Some 1 \<and>
   report_value (fst (get_metric True (snd (evaluate_seq demo_get_scores demo_scores (ValidMetric_init ''out'' demo_data))))) ''top6_accuracy'' = Some 1 \<and>
   report_value (fst (get_metric True (snd (evaluate_seq demo_get_scores demo_scores (ValidMetric_init ''out'' demo_data))))) ''top10_accuracy'' = Some 1"
proof -
  have h1: "[] \<notin> set demo_score" by (simp add: demo_score_def)
  have h2: "evaluate_seq demo_get_scores demo_scores (ValidMetric_init ''out'' demo_data) =
     (Returns (), snd (evaluate_seq demo_get_scores demo_scores (ValidMetric_init ''out'' demo_data)))"
    by (simp add: demo_defs demo_scores_def)
  have h3: "\<forall>score\<in>set demo_scores. \<forall>row\<in>set score. argmax row = 0"
    by (simp add: demo_scores_def)
  have h4: "concat demo_scores \<noteq> []" by (simp add: demo_scores_def)
  have c: "filter (\<lambda>row. argmax row = 0) demo_score = [[3, 1, 2]]"
      "filter (\<lambda>row. argmax row \<le> 5) demo_score = demo_score"
      "filter (\<lambda>row. argmax row \<le> 9) demo_score = demo_score"
    by (simp_all add: demo_score_def)
  have i: "top1_correct (ValidMetric_init ''out'' demo_data) = 0" "top6_correct (ValidMetric_init ''out'' demo_data) = 0"
    "top10_correct (ValidMetric_init ''out'' demo_data) = 0"
    by (simp_all add: ValidMetric_init_def)
  note t = evaluate_top_k[where score = demo_score and gs = demo_get_scores
        and s = "ValidMetric_init ''out'' demo_data" and scores = demo_scores and path = "''out''" and d = demo_data
        and s' = "snd (evaluate_seq demo_get_scores demo_scores (ValidMetric_init ''out'' demo_data))" and reset = True]
  have a: "top1_correct (snd (evaluate demo_get_scores demo_score (ValidMetric_init ''out'' demo_data))) = 1 \<and>
   top6_correct (snd (evaluate demo_get_scores demo_score (ValidMetric_init ''out'' demo_data))) = 2 \<and>
   top10_correct (snd (evaluate demo_get_scores demo_score (ValidMetric_init ''out'' demo_data))) = 2"
    using t[THEN conjunct1, rule_format, OF h1] unfolding c i by (simp add: demo_score_def)
  have b: "report_value (fst (get_metric True (snd (evaluate_seq demo_get_scores demo_scores (ValidMetric_init ''out'' demo_data))))) ''top1_accuracy'' = Some 1 \<and>
   report_value (fst (get_metric True (snd (evaluate_seq demo_get_scores demo_scores (ValidMetric_init ''out'' demo_data))))) ''top6_accuracy'' = Some 1 \<and>
   report_value (fst (get_metric True (snd (evaluate_seq demo_get_scores demo_scores (ValidMetric_init ''out'' demo_data))))) ''top10_accuracy'' = Some 1"
    using t[THEN conjunct2, rule_format, OF conjI[OF h2 conjI[OF h3 h4]]] .
  have h5: "map (map argmax) demo_scores = [[0], [0]]" by (simp add: demo_scores_def)
  show ?thesis using h1 h2 h4 h5 a b by blast
qed


section \<open>ValidMetric: empty accumulation\<close>

text \<open>
  C7. \<^verbatim>\<open>get_metric\<close> on a fresh metric raises ZeroDivisionError; and after a
  \<^verbatim>\<open>get_metric(reset=True)\<close> that returned, all counters and the cursor are zero, so
  that the next \<^verbatim>\<open>get_metric\<close> raises ZeroDivisionError as well.
\<close>

theorem get_metric_empty_raises:
  "fst (get_metric reset (ValidMetric_init path d)) = Raises ZeroDivisionError \<and>
   (get_metric True s = (Returns rep, s') \<longrightarrow>
      top1_correct s' = 0 \<and> top6_correct s' = 0 \<and> top10_correct s' = 0 \<and>
      ROUGE s' = 0 \<and> Error s' = 0 \<and> cur_idx s' = 0 \<and>
      fst (get_metric reset s') = Raises ZeroDivisionError)"
  by (auto simp: get_metric_def ValidMetric_init_def Let_def split: if_splits)

theorem get_metric_empty_raises_witness:
  "get_metric True (snd (evaluate demo_get_scores demo_score (ValidMetric_init ''out'' demo_data))) =
     (Returns [(''top1_accuracy'', PyFloat (1 / 2)), (''top6_accuracy'', PyFloat 1),
               (''top10_accuracy'', PyFloat 1), (''Error'', PyInt 1), (''ROUGE'', PyFloat (1 / 6))],
      snd (get_metric True (snd (evaluate demo_get_scores demo_score (ValidMetric_init ''out'' demo_data))))) \<and>
   fst (get_metric True (snd (get_metric True (snd (evaluate demo_get_scores demo_score (ValidMetric_init ''out'' demo_data))))))
     = Raises ZeroDivisionError"
proof -
  have h: "get_metric True (snd (evaluate demo_get_scores demo_score (ValidMetric_init ''out'' demo_data))) =
     (Returns [(''top1_accuracy'', PyFloat (1 / 2)), (''top6_accuracy'', PyFloat 1),
               (''top10_accuracy'', PyFloat 1), (''Error'', PyInt 1), (''ROUGE'', PyFloat (1 / 6))],
      snd (get_metric True (snd (evaluate demo_get_scores demo_score (ValidMetric_init ''out'' demo_data)))))"
    unfolding demo_state by (simp add: get_metric_def Let_def)
  show ?thesis
    using get_metric_empty_raises[of True "''out''" demo_data, THEN conjunct2, rule_format, OF h] h by simp
qed


section \<open>ValidMetric: what happens to the examples\<close>














section \<open>MatchRougeMetric: file names\<close>

text \<open>
  Different example numbers give different file names, and no decoded file is a reference
  file, whatever the two directories are.
\<close>

lemma digit_inj: "a < 10 \<Longrightarrow> b < 10 \<Longrightarrow> digit a = digit b \<Longrightarrow> a = b"
proof -
  assume a: "a < 10" and b: "b < 10" and e: "digit a = digit b"
  from e have "(of_char (digit a) :: nat) = of_char (digit b)" by simp
  then show "a = b" using a b by (simp add: digit_def)
qed

lemma digit_not_slash: "a < 10 \<Longrightarrow> digit a \<noteq> CHR ''/''"
proof
  assume a: "a < 10" and e: "digit a = CHR ''/''"
  from e have "(of_char (digit a) :: nat) = of_char (CHR ''/'')" by simp
  then show False using a by (simp add: digit_def)
qed

lemma str_nat_nonempty: "str_nat n \<noteq> []"
  by (subst str_nat.simps) simp

lemma str_nat_single: "length (str_nat n) = 1 \<longleftrightarrow> n < 10"
proof (cases "n < 10")
  case True
  then show ?thesis by (subst str_nat.simps) simp
next
  case False
  have "str_nat n = str_nat (n div 10) @ [digit (n mod 10)]"
    using False by (subst str_nat.simps) simp
  then show ?thesis using False str_nat_nonempty[of "n div 10"] by (cases "str_nat (n div 10)") auto
qed

lemma str_nat_inj: "str_nat n = str_nat m \<Longrightarrow> n = m"
proof (induction n arbitrary: m rule: str_nat.induct)
  case (1 n)
  show ?case
  proof (cases "n < 10")
    case True
    then have "length (str_nat n) = 1" by (simp only: str_nat_single)
    then have "length (str_nat m) = 1" using "1.prems" by simp
    then have m: "m < 10" by (simp only: str_nat_single)
    have "str_nat n = [digit n]" using True by (subst str_nat.simps) simp
    moreover have "str_nat m = [digit m]" using m by (subst str_nat.simps) simp
    ultimately show ?thesis using True m "1.prems" digit_inj by simp
  next
    case False
    then have "length (str_nat n) \<noteq> 1" by (simp only: str_nat_single) simp
    then have "length (str_nat m) \<noteq> 1" using "1.prems" by simp
    then have m: "\<not> m < 10" by (simp only: str_nat_single) simp
    have en: "str_nat n = str_nat (n div 10) @ [digit (n mod 10)]"
      using False by (subst str_nat.simps) simp
    have em: "str_nat m = str_nat (m div 10) @ [digit (m mod 10)]"
      using m by (subst str_nat.simps) simp
    from "1.prems" en em have a: "str_nat (n div 10) = str_nat (m div 10)"
      and b: "digit (n mod 10) = digit (m mod 10)" by simp_all
    from "1.IH"[OF False a] have d: "n div 10 = m div 10" .
    from b have r: "n mod 10 = m mod 10" by (intro digit_inj) simp_all
    show ?thesis using d r by (metis div_mult_mod_eq)
  qed
qed

lemma str_nat_hd: "hd (str_nat n) \<noteq> CHR ''/''"
proof (induction n rule: str_nat.induct)
  case (1 n)
  show ?case
  proof (cases "n < 10")
    case True
    have "str_nat n = [digit n]" using True by (subst str_nat.simps) simp
    then show ?thesis using True digit_not_slash by simp
  next
    case False
    have en: "str_nat n = str_nat (n div 10) @ [digit (n mod 10)]"
      using False by (subst str_nat.simps) simp
    show ?thesis using "1.IH"[OF False] str_nat_nonempty[of "n div 10"] unfolding en by simp
  qed
qed

lemma join_str_nat: "\<exists>pre. \<forall>i suf. join a (str_nat i @ suf) = pre @ str_nat i @ suf"
proof -
  have "\<And>i suf. str_nat i @ suf \<noteq> [] \<and> hd (str_nat i @ suf) \<noteq> CHR ''/''"
    using str_nat_nonempty str_nat_hd by simp
  then have "\<forall>i suf. join a (str_nat i @ suf) = (if a = [] \<or> last a = CHR ''/'' then a else a @ ''/'') @ str_nat i @ suf"
    by (simp add: join_def)
  then show ?thesis by blast
qed

lemma dec_file_inj: "dec_file dp i = dec_file dp j \<Longrightarrow> i = j"
proof -
  obtain pre where p: "\<And>i suf. join dp (str_nat i @ suf) = pre @ str_nat i @ suf"
    using join_str_nat[of dp] by blast
  assume "dec_file dp i = dec_file dp j"
  then have "str_nat i = str_nat j" by (simp add: dec_file_def p)
  then show ?thesis by (rule str_nat_inj)
qed

lemma ref_file_inj: "ref_file rp i = ref_file rp j \<Longrightarrow> i = j"
proof -
  obtain pre where p: "\<And>i suf. join rp (str_nat i @ suf) = pre @ str_nat i @ suf"
    using join_str_nat[of rp] by blast
  assume "ref_file rp i = ref_file rp j"
  then have "str_nat i = str_nat j" by (simp add: ref_file_def p)
  then show ?thesis by (rule str_nat_inj)
qed

lemma dec_file_not_ref_file: "dec_file dp i \<noteq> ref_file rp j"
proof
  obtain pre where p: "\<And>i suf. join dp (str_nat i @ suf) = pre @ str_nat i @ suf"
    using join_str_nat[of dp] by blast
  obtain pre' where p': "\<And>i suf. join rp (str_nat i @ suf) = pre' @ str_nat i @ suf"
    using join_str_nat[of rp] by blast
  assume "dec_file dp i = ref_file rp j"
  then have "(pre @ str_nat i) @ ''.dec'' = (pre' @ str_nat j) @ ''.ref''"
    by (simp add: dec_file_def ref_file_def p p')
  then have "''.dec'' = ''.ref''" by (subst (asm) append_eq_append_conv) simp_all
  then show False by simp
qed


section \<open>MatchRougeMetric: the loop over the observed examples\<close>

text \<open>
  The sentences come out in the order of the index set; a text of newline-ended sentences
  splits back into the sentences; and a loop that completes has written, for each example
  from \<open>i0\<close> on, its two files, and has left every other path as it was.
\<close>

lemma py_gets_Some:
  "py_gets xs js = Some ys \<Longrightarrow> list_all2 (\<lambda>j y. py_get xs j = Some y) js ys"
  by (induction js arbitrary: ys) (auto split: option.splits)

lemma lines_from_line:
  "CHR 0x0A \<notin> set s \<Longrightarrow> lines_from cur (s @ CHR 0x0A # rest) = (cur @ s) # lines_from [] rest"
  by (induction s arbitrary: cur) auto

lemma split_lines_print_lines:
  "\<forall>sent\<in>set sents. CHR 0x0A \<notin> set sent \<Longrightarrow> split_lines (print_lines sents) = sents"
  unfolding split_lines_def print_lines_def
proof (induction sents)
  case Nil
  show ?case by simp
next
  case (Cons a sents)
  then show ?case using lines_from_line[of a "[]"] by simp
qed

lemma write_files_None:
  "write_files d dp rp i0 es fs = (None, fs') \<Longrightarrow>
   (\<forall>k<length es. i0 + k < length d \<and> es ! k < length (indices (d ! (i0 + k))) \<and>
     (\<exists>dec. py_gets (ex_text (d ! (i0 + k))) (indices (d ! (i0 + k)) ! (es ! k)) = Some dec \<and>
        fs' (dec_file dp (i0 + k)) = Some (print_lines dec) \<and>
        fs' (ref_file rp (i0 + k)) = Some (print_lines (summary (d ! (i0 + k)))))) \<and>
   (\<forall>p. p \<notin> dec_file dp ` {i0..<i0 + length es} \<union> ref_file rp ` {i0..<i0 + length es} \<longrightarrow> fs' p = fs p)"
proof (induction es arbitrary: i0 fs)
  case Nil
  then show ?case by simp
next
  case (Cons e es)
  from Cons.prems have rng: "i0 < length d" "e < length (indices (d ! i0))"
    by (auto split: if_splits)
  from Cons.prems obtain dec where
    dec: "py_gets (ex_text (d ! i0)) (indices (d ! i0) ! e) = Some dec"
    and rest: "write_files d dp rp (Suc i0) es
        (fs(dec_file dp i0 \<mapsto> print_lines dec, ref_file rp i0 \<mapsto> print_lines (summary (d ! i0)))) = (None, fs')"
    by (auto split: if_splits option.splits)
  let ?fs1 = "fs(dec_file dp i0 \<mapsto> print_lines dec, ref_file rp i0 \<mapsto> print_lines (summary (d ! i0)))"
  note ih = Cons.IH[OF rest]
  have later: "\<forall>p. p \<notin> dec_file dp ` {Suc i0..<Suc i0 + length es} \<union> ref_file rp ` {Suc i0..<Suc i0 + length es} \<longrightarrow> fs' p = ?fs1 p"
    using ih by blast
  have nd: "dec_file dp i0 \<notin> dec_file dp ` {Suc i0..<Suc i0 + length es} \<union> ref_file rp ` {Suc i0..<Suc i0 + length es}"
    using dec_file_inj[of dp i0] dec_file_not_ref_file[of dp i0 rp] by auto
  have nr: "ref_file rp i0 \<notin> dec_file dp ` {Suc i0..<Suc i0 + length es} \<union> ref_file rp ` {Suc i0..<Suc i0 + length es}"
  proof
    assume "ref_file rp i0 \<in> dec_file dp ` {Suc i0..<Suc i0 + length es} \<union> ref_file rp ` {Suc i0..<Suc i0 + length es}"
    then consider k where "ref_file rp i0 = dec_file dp k"
      | k where "Suc i0 \<le> k" and "ref_file rp i0 = ref_file rp k" by auto
    then show False
    proof cases
      case 1
      then show ?thesis using dec_file_not_ref_file[of dp k rp i0] by simp
    next
      case 2
      then show ?thesis using ref_file_inj[of rp i0 k] by simp
    qed
  qed
  have d0: "fs' (dec_file dp i0) = Some (print_lines dec)"
    using later nd dec_file_not_ref_file[of dp i0 rp i0] by simp
  have r0: "fs' (ref_file rp i0) = Some (print_lines (summary (d ! i0)))"
    using later nr by simp
  have first: "\<forall>k<length (e # es). i0 + k < length d \<and> (e # es) ! k < length (indices (d ! (i0 + k))) \<and>
       (\<exists>dec. py_gets (ex_text (d ! (i0 + k))) (indices (d ! (i0 + k)) ! ((e # es) ! k)) = Some dec \<and>
        fs' (dec_file dp (i0 + k)) = Some (print_lines dec) \<and>
        fs' (ref_file rp (i0 + k)) = Some (print_lines (summary (d ! (i0 + k)))))"
  proof (intro allI impI)
    fix k assume k: "k < length (e # es)"
    show "i0 + k < length d \<and> (e # es) ! k < length (indices (d ! (i0 + k))) \<and>
       (\<exists>dec. py_gets (ex_text (d ! (i0 + k))) (indices (d ! (i0 + k)) ! ((e # es) ! k)) = Some dec \<and>
        fs' (dec_file dp (i0 + k)) = Some (print_lines dec) \<and>
        fs' (ref_file rp (i0 + k)) = Some (print_lines (summary (d ! (i0 + k)))))"
    proof (cases k)
      case 0
      then show ?thesis using rng dec d0 r0 by simp
    next
      case (Suc k')
      with k have "k' < length es" by simp
      with ih show ?thesis using Suc by simp
    qed
  qed
  have other: "\<forall>p. p \<notin> dec_file dp ` {i0..<i0 + length (e # es)} \<union> ref_file rp ` {i0..<i0 + length (e # es)} \<longrightarrow> fs' p = fs p"
  proof (intro allI impI)
    fix p assume p: "p \<notin> dec_file dp ` {i0..<i0 + length (e # es)} \<union> ref_file rp ` {i0..<i0 + length (e # es)}"
    have sub: "{Suc i0..<Suc i0 + length es} \<subseteq> {i0..<i0 + length (e # es)}" by auto
    have "p \<notin> dec_file dp ` {Suc i0..<Suc i0 + length es} \<union> ref_file rp ` {Suc i0..<Suc i0 + length es}"
      using p sub by blast
    then have "fs' p = ?fs1 p" using later by blast
    moreover have "p \<noteq> dec_file dp i0" "p \<noteq> ref_file rp i0" using p by auto
    ultimately show "fs' p = fs p" by simp
  qed
  show ?case using first other by blast
qed

lemma files_distinct: "distinct (map (dec_file dp) [0..<n] @ map (ref_file rp) [0..<n])"
  using dec_file_inj[of dp] ref_file_inj[of rp] dec_file_not_ref_file[of dp _ rp]
  by (auto simp: distinct_map inj_on_def)

lemma str_nat_0: "str_nat 0 = ''0''"
  by code_simp

lemma str_nat_1: "str_nat (Suc 0) = ''1''"
  by code_simp

lemma demo_files: "dec_file ''dec'' 0 = ''dec/0.dec''" "dec_file ''dec'' (Suc 0) = ''dec/1.dec''"
  "ref_file ''ref'' 0 = ''ref/0.ref''" "ref_file ''ref'' (Suc 0) = ''ref/1.ref''"
  by (simp_all add: dec_file_def ref_file_def join_def str_nat_0 str_nat_1)

lemma demo_metric_run:
  "mr_evaluate_seq demo_scores demo_metric =
     (Returns (), \<lparr>mr_data = demo_data, dec_path = ''dec'', ref_path = ''ref'', n_total = 2,
                   mr_cur_idx = 2, ext = [0, 0], start = 0\<rparr>)"
  by (simp add: demo_scores_def demo_metric_def MatchRougeMetric_init_def mr_evaluate_def)

lemma demo_write:
  "write_files demo_data ''dec'' ''ref'' 0 [0, 0] Map.empty =
     (None, [''dec/0.dec'' \<mapsto> print_lines [''d e'', ''a b''], ''ref/0.ref'' \<mapsto> print_lines [''a b'', ''d''],
             ''dec/1.dec'' \<mapsto> print_lines [''g''], ''ref/1.ref'' \<mapsto> print_lines [''g'']])"
  by (simp add: demo_data_def py_get_def demo_files)

lemma demo_get_metric:
  "mr_get_metric demo_eval_rouge 7 True demo_observed Map.empty =
     (Returns [(''ROUGE-1'', PyFloat (1 / 2)), (''ROUGE-2'', PyFloat (1 / 4)), (''ROUGE-L'', PyFloat (1 / 3))],
      \<lparr>mr_data = [], dec_path = ''dec'', ref_path = ''ref'', n_total = 2,
                   mr_cur_idx = 0, ext = [], start = 7\<rparr>,
      snd (snd (mr_get_metric demo_eval_rouge 7 True demo_observed Map.empty)))"
proof -
  have f: "mr_data demo_observed = demo_data" "dec_path demo_observed = ''dec''"
    "ref_path demo_observed = ''ref''" "ext demo_observed = [0, 0]"
    by (simp_all add: demo_observed_def)
  show ?thesis
    unfolding mr_get_metric_def f demo_write
    by (simp add: demo_eval_rouge_def demo_observed_def)
qed


section \<open>MatchRougeMetric: the files written\<close>

text \<open>
  C8. When \<^verbatim>\<open>get_metric\<close> returns, its loop has completed and the scorer has run on the
  files it left. For every observed example \<open>i\<close> these hold the decoded file
  \<open>i\<close>.dec with the sentences that the selected index set resolves to, in the order of
  the index set, and the reference file \<open>i\<close>.ref with the gold summary sentences in
  their order, each sentence followed by a newline; the two files per example are all
  different files, and no other file is touched by the loop. When no sentence holds a
  newline, the lines of such a file are exactly the sentences.
\<close>

theorem get_metric_writes_files:
  assumes "mr_get_metric eval_rouge now reset s fs = (Returns rep, s', fs')"
  shows "\<exists>fs1. write_files (mr_data s) (dec_path s) (ref_path s) 0 (ext s) fs = (None, fs1) \<and>
           (\<exists>R. eval_rouge fs1 (dec_path s) (ref_path s) = (Returns R, fs')) \<and>
           (\<forall>i<length (ext s). i < length (mr_data s) \<and> ext s ! i < length (indices (mr_data s ! i)) \<and> (\<exists>dec.
               py_gets (ex_text (mr_data s ! i)) (indices (mr_data s ! i) ! (ext s ! i)) = Some dec \<and>
               list_all2 (\<lambda>j sent. py_get (ex_text (mr_data s ! i)) j = Some sent)
                 (indices (mr_data s ! i) ! (ext s ! i)) dec \<and>
               fs1 (dec_file (dec_path s) i) = Some (print_lines dec) \<and>
               fs1 (ref_file (ref_path s) i) = Some (print_lines (summary (mr_data s ! i))))) \<and>
           distinct (map (dec_file (dec_path s)) [0..<length (ext s)] @
                     map (ref_file (ref_path s)) [0..<length (ext s)]) \<and>
           (\<forall>p. p \<notin> set (map (dec_file (dec_path s)) [0..<length (ext s)] @
                           map (ref_file (ref_path s)) [0..<length (ext s)]) \<longrightarrow> fs1 p = fs p) \<and>
           (\<forall>sents. (\<forall>sent\<in>set sents. CHR 0x0A \<notin> set sent) \<longrightarrow> split_lines (print_lines sents) = sents)"
proof -
  obtain r fs1 where w: "write_files (mr_data s) (dec_path s) (ref_path s) 0 (ext s) fs = (r, fs1)"
    by (cases "write_files (mr_data s) (dec_path s) (ref_path s) 0 (ext s) fs")
  have rn: "r = None" using assms w by (cases r) (simp_all add: mr_get_metric_def)
  obtain o2 fs2 where e: "eval_rouge fs1 (dec_path s) (ref_path s) = (o2, fs2)"
    by (cases "eval_rouge fs1 (dec_path s) (ref_path s)")
  have e2: "\<exists>R. o2 = Returns R \<and> fs2 = fs'"
    using assms w rn e by (cases o2) (auto simp: mr_get_metric_def Let_def split: prod.splits)
  note wf = write_files_None[OF w[unfolded rn]]
  have a: "\<forall>i<length (ext s). i < length (mr_data s) \<and> ext s ! i < length (indices (mr_data s ! i)) \<and> (\<exists>dec.
               py_gets (ex_text (mr_data s ! i)) (indices (mr_data s ! i) ! (ext s ! i)) = Some dec \<and>
               list_all2 (\<lambda>j sent. py_get (ex_text (mr_data s ! i)) j = Some sent)
                 (indices (mr_data s ! i) ! (ext s ! i)) dec \<and>
               fs1 (dec_file (dec_path s) i) = Some (print_lines dec) \<and>
               fs1 (ref_file (ref_path s) i) = Some (print_lines (summary (mr_data s ! i))))"
  proof (intro allI impI)
    fix i assume "i < length (ext s)"
    with wf obtain dec where d: "py_gets (ex_text (mr_data s ! i)) (indices (mr_data s ! i) ! (ext s ! i)) = Some dec"
      "fs1 (dec_file (dec_path s) i) = Some (print_lines dec)"
      "fs1 (ref_file (ref_path s) i) = Some (print_lines (summary (mr_data s ! i)))"
      and rng: "i < length (mr_data s)" "ext s ! i < length (indices (mr_data s ! i))"
      by fastforce
    show "i < length (mr_data s) \<and> ext s ! i < length (indices (mr_data s ! i)) \<and> (\<exists>dec.
               py_gets (ex_text (mr_data s ! i)) (indices (mr_data s ! i) ! (ext s ! i)) = Some dec \<and>
               list_all2 (\<lambda>j sent. py_get (ex_text (mr_data s ! i)) j = Some sent)
                 (indices (mr_data s ! i) ! (ext s ! i)) dec \<and>
               fs1 (dec_file (dec_path s) i) = Some (print_lines dec) \<and>
               fs1 (ref_file (ref_path s) i) = Some (print_lines (summary (mr_data s ! i))))"
      using rng d py_gets_Some[OF d(1)] by blast
  qed
  have b: "\<forall>p. p \<notin> set (map (dec_file (dec_path s)) [0..<length (ext s)] @
                           map (ref_file (ref_path s)) [0..<length (ext s)]) \<longrightarrow> fs1 p = fs p"
    using wf by simp
  have c: "\<forall>sents. (\<forall>sent\<in>set sents. CHR 0x0A \<notin> set sent) \<longrightarrow> split_lines (print_lines sents) = sents"
    using split_lines_print_lines by blast
  show ?thesis
    using w[unfolded rn] e e2 a b c files_distinct[of "dec_path s" "length (ext s)" "ref_path s"] by auto
qed

theorem get_metric_writes_files_witness:
  "fst (mr_get_metric demo_eval_rouge 7 True demo_observed Map.empty) =
     Returns [(''ROUGE-1'', PyFloat (1 / 2)), (''ROUGE-2'', PyFloat (1 / 4)), (''ROUGE-L'', PyFloat (1 / 3))] \<and>
   (\<exists>fs1. write_files demo_data ''dec'' ''ref'' 0 [0, 0] Map.empty = (None, fs1) \<and>
      fs1 ''dec/0.dec'' = Some (print_lines [''d e'', ''a b'']) \<and>
      fs1 ''ref/0.ref'' = Some (print_lines [''a b'', ''d'']) \<and>
      fs1 ''dec/1.dec'' = Some (print_lines [''g'']) \<and>
      fs1 ''ref/1.ref'' = Some (print_lines [''g'']) \<and>
      fs1 ''dec/2.dec'' = None) \<and>
   distinct [''dec/0.dec'', ''dec/1.dec'', ''ref/0.ref'', ''ref/1.ref''] \<and>
   split_lines (print_lines [''d e'', ''a b'']) = [''d e'', ''a b'']"
proof -
  have f: "mr_data demo_observed = demo_data" "dec_path demo_observed = ''dec''"
    "ref_path demo_observed = ''ref''" "ext demo_observed = [0, 0]"
    by (simp_all add: demo_observed_def)
  from get_metric_writes_files[OF demo_get_metric, unfolded f]
  obtain fs1 where w: "write_files demo_data ''dec'' ''ref'' 0 [0, 0] Map.empty = (None, fs1)"
    and a: "\<forall>i<length [0, 0::nat]. i < length demo_data \<and> [0, 0] ! i < length (indices (demo_data ! i)) \<and> (\<exists>dec.
               py_gets (ex_text (demo_data ! i)) (indices (demo_data ! i) ! ([0, 0] ! i)) = Some dec \<and>
               list_all2 (\<lambda>j sent. py_get (ex_text (demo_data ! i)) j = Some sent)
                 (indices (demo_data ! i) ! ([0, 0] ! i)) dec \<and>
               fs1 (dec_file ''dec'' i) = Some (print_lines dec) \<and>
               fs1 (ref_file ''ref'' i) = Some (print_lines (summary (demo_data ! i))))"
    and d: "distinct (map (dec_file ''dec'') [0..<length [0, 0::nat]] @ map (ref_file ''ref'') [0..<length [0, 0::nat]])"
    and o: "\<forall>p. p \<notin> set (map (dec_file ''dec'') [0..<length [0, 0::nat]] @ map (ref_file ''ref'') [0..<length [0, 0::nat]])
              \<longrightarrow> fs1 p = Map.empty p"
    and l: "\<forall>sents. (\<forall>sent\<in>set sents. CHR 0x0A \<notin> set sent) \<longrightarrow> split_lines (print_lines sents) = sents"
    by blast
  have r: "[0..<length [0, 0::nat]] = [0, Suc 0]" by (simp add: upt_rec)
  have i0: "0 < length [0, 0::nat]" and i1: "Suc 0 < length [0, 0::nat]" by simp_all
  from a[rule_format, OF i0]
  have c0: "fs1 ''dec/0.dec'' = Some (print_lines [''d e'', ''a b''])"
      "fs1 ''ref/0.ref'' = Some (print_lines [''a b'', ''d''])"
    by (auto simp: demo_files demo_data_def py_get_def)
  from a[rule_format, OF i1]
  have c1: "fs1 ''dec/1.dec'' = Some (print_lines [''g''])" "fs1 ''ref/1.ref'' = Some (print_lines [''g''])"
    by (auto simp: demo_files demo_data_def py_get_def)
  have c2: "fs1 ''dec/2.dec'' = None"
    using o unfolding r by (simp add: demo_files)
  have d': "distinct [''dec/0.dec'', ''dec/1.dec'', ''ref/0.ref'', ''ref/1.ref'']"
    using d unfolding r by (simp add: demo_files)
  have l': "split_lines (print_lines [''d e'', ''a b'']) = [''d e'', ''a b'']"
    using l by simp
  have g: "fst (mr_get_metric demo_eval_rouge 7 True demo_observed Map.empty) =
     Returns [(''ROUGE-1'', PyFloat (1 / 2)), (''ROUGE-2'', PyFloat (1 / 4)), (''ROUGE-L'', PyFloat (1 / 3))]"
    by (subst demo_get_metric) simp
  show ?thesis using g w c0 c1 c2 d' l' by blast
qed


section \<open>MatchRougeMetric: reset\<close>

lemma mr_evaluate_seq_Returns:
  "mr_evaluate_seq scores s = (Returns u, s') \<Longrightarrow>
   mr_data s' = mr_data s \<and> ext s' = ext s @ map (\<lambda>score. argmax (hd score)) scores \<and>
   mr_cur_idx s' = mr_cur_idx s + length scores"
proof (induction scores arbitrary: s)
  case Nil
  then show ?case by simp
next
  case (Cons score scores)
  obtain r s1 where st: "mr_evaluate score s = (r, s1)" by (cases "mr_evaluate score s")
  with Cons.prems obtain v where r: "r = Returns v" by (cases r) auto
  from st r Cons.prems have rest: "mr_evaluate_seq scores s1 = (Returns u, s')" by simp
  have one: "mr_data s1 = mr_data s \<and> ext s1 = ext s @ [argmax (hd score)] \<and> mr_cur_idx s1 = Suc (mr_cur_idx s)"
    using st r by (auto simp: mr_evaluate_def Let_def split: if_splits list.splits)
  show ?case using Cons.IH[OF rest] one by simp
qed

lemma get_metric_no_data:
  assumes "mr_data s = []" and "ext s \<noteq> []"
  shows "mr_get_metric eval_rouge now reset s fs = (Raises IndexError, s, fs)"
proof -
  obtain e es where "ext s = e # es" using assms(2) by (cases "ext s") auto
  then show ?thesis using assms(1) by (simp add: mr_get_metric_def)
qed

text \<open>
  C10. A \<^verbatim>\<open>get_metric(reset=True)\<close> that returns leaves the selected-index list empty,
  the cursor at 0, the timer restarted and the example collection empty; so after any
  further non-empty run of \<^verbatim>\<open>evaluate\<close> calls, \<^verbatim>\<open>get_metric\<close> raises IndexError at
  the first example and writes nothing: the metric cannot serve a second pass.
\<close>

theorem get_metric_reset_drops_data:
  assumes "mr_get_metric eval_rouge now True s fs = (Returns rep, s', fs')"
  shows "mr_data s' = [] \<and> ext s' = [] \<and> mr_cur_idx s' = 0 \<and> start s' = now \<and>
         (\<forall>scores s'' eval_rouge' now' reset' fs''.
            scores \<noteq> [] \<and> mr_evaluate_seq scores s' = (Returns (), s'') \<longrightarrow>
            mr_get_metric eval_rouge' now' reset' s'' fs'' = (Raises IndexError, s'', fs''))"
proof -
  have r: "mr_data s' = [] \<and> ext s' = [] \<and> mr_cur_idx s' = 0 \<and> start s' = now"
    using assms by (auto simp: mr_get_metric_def Let_def split: prod.splits option.splits outcome.splits)
  have "mr_get_metric eval_rouge' now' reset' s'' fs'' = (Raises IndexError, s'', fs'')"
    if "scores \<noteq> []" and "mr_evaluate_seq scores s' = (Returns (), s'')"
    for scores s'' eval_rouge' now' reset' fs''
  proof -
    from mr_evaluate_seq_Returns[OF that(2)] r that(1)
    have "mr_data s'' = []" "ext s'' \<noteq> []" by simp_all
    then show ?thesis by (rule get_metric_no_data)
  qed
  then show ?thesis using r by blast
qed

theorem get_metric_reset_drops_data_witness:
  "mr_get_metric demo_eval_rouge 7 True demo_observed Map.empty =
     (Returns [(''ROUGE-1'', PyFloat (1 / 2)), (''ROUGE-2'', PyFloat (1 / 4)), (''ROUGE-L'', PyFloat (1 / 3))],
      \<lparr>mr_data = [], dec_path = ''dec'', ref_path = ''ref'', n_total = 2,
                   mr_cur_idx = 0, ext = [], start = 7\<rparr>,
      snd (snd (mr_get_metric demo_eval_rouge 7 True demo_observed Map.empty))) \<and>
   mr_evaluate_seq demo_scores
      \<lparr>mr_data = [], dec_path = ''dec'', ref_path = ''ref'', n_total = 2, mr_cur_idx = 0, ext = [], start = 7\<rparr> =
     (Returns (), \<lparr>mr_data = [], dec_path = ''dec'', ref_path = ''ref'', n_total = 2,
                   mr_cur_idx = 2, ext = [0, 0], start = 7\<rparr>) \<and>
   mr_get_metric demo_eval_rouge 8 True
      \<lparr>mr_data = [], dec_path = ''dec'', ref_path = ''ref'', n_total = 2, mr_cur_idx = 2, ext = [0, 0], start = 7\<rparr>
      Map.empty =
     (Raises IndexError,
      \<lparr>mr_data = [], dec_path = ''dec'', ref_path = ''ref'', n_total = 2, mr_cur_idx = 2, ext = [0, 0], start = 7\<rparr>,
      Map.empty)"
proof -
  have e: "mr_evaluate_seq demo_scores
      \<lparr>mr_data = [], dec_path = ''dec'', ref_path = ''ref'', n_total = 2, mr_cur_idx = 0, ext = [], start = 7\<rparr> =
     (Returns (), \<lparr>mr_data = [], dec_path = ''dec'', ref_path = ''ref'', n_total = 2,
                   mr_cur_idx = 2, ext = [0, 0], start = 7\<rparr>)"
    by (simp add: demo_scores_def mr_evaluate_def)
  have n: "demo_scores \<noteq> []" by (simp add: demo_scores_def)
  note t = get_metric_reset_drops_data[OF demo_get_metric]
  have "mr_get_metric demo_eval_rouge 8 True
      \<lparr>mr_data = [], dec_path = ''dec'', ref_path = ''ref'', n_total = 2, mr_cur_idx = 2, ext = [0, 0], start = 7\<rparr>
      Map.empty =
     (Raises IndexError,
      \<lparr>mr_data = [], dec_path = ''dec'', ref_path = ''ref'', n_total = 2, mr_cur_idx = 2, ext = [0, 0], start = 7\<rparr>,
      Map.empty)"
    using t n e by blast
  then show ?thesis using demo_get_metric e by blast
qed

end
